theory Spec2Isabelle
  imports Main
begin

section \<open>The mail dispatch service of \<^verbatim>\<open>internal/sender/mail.go\<close>\<close>

text \<open>
  The service reads pending rows of the table \<^verbatim>\<open>dbo.tb_getEmailWiseSend\<close>, turns each
  into an e-mail, hands the whole batch to the SMTP dialer and then acknowledges every row
  through a stored procedure. Everything outside the Go process (the table, the two stored
  procedures, the driver, the relay, the clock, the process environment) is a field of an
  environment record; the Go code is the functions below, which pass a world (the table
  and the trace of external calls made so far) explicitly.

  Strings are Go strings, that is byte sequences: \<^typ>\<open>string\<close>. The only character the
  code inspects is \<^verbatim>\<open>';'\<close>, an ASCII byte that never occurs inside a multi-byte UTF-8
  sequence (and an invalid byte decodes to U+FFFD, not to \<^verbatim>\<open>';'\<close>), so the rune loop
  of \<^verbatim>\<open>strings.FieldsFunc\<close> visits the same delimiters as a loop over bytes.
\<close>

subsection \<open>Splitting an address column\<close>

text \<open>
  \<^verbatim>\<open>strings.FieldsFunc(s, f)\<close> of the Go standard library, as its loop is written:
  \<^verbatim>\<open>start\<close> is the open field, if any (\<^verbatim>\<open>start >= 0\<close>), \<^verbatim>\<open>spans\<close> the closed
  fields so far. A byte satisfying \<open>f\<close> closes the open field; any other byte opens a field
  or extends the open one; at the end of the string an open field is closed.
\<close>

fun FieldsFunc_loop :: "(char \<Rightarrow> bool) \<Rightarrow> string \<Rightarrow> string option \<Rightarrow> string list \<Rightarrow> string list" where
  "FieldsFunc_loop f [] start spans =
     (case start of None \<Rightarrow> spans | Some fld \<Rightarrow> spans @ [fld])"
| "FieldsFunc_loop f (c # cs) start spans =
     (if f c then
        (case start of
           Some fld \<Rightarrow> FieldsFunc_loop f cs None (spans @ [fld])
         | None \<Rightarrow> FieldsFunc_loop f cs None spans)
      else
        (case start of
           None \<Rightarrow> FieldsFunc_loop f cs (Some [c]) spans
         | Some fld \<Rightarrow> FieldsFunc_loop f cs (Some (fld @ [c])) spans))"

definition FieldsFunc :: "string \<Rightarrow> (char \<Rightarrow> bool) \<Rightarrow> string list" where
  "FieldsFunc s f = FieldsFunc_loop f s None []"

text \<open>The function literal \<^verbatim>\<open>func(r rune) bool { return r == ';' }\<close>.\<close>

definition is_semicolon :: "char \<Rightarrow> bool" where
  "is_semicolon r = (r = CHR '';'')"

text \<open>
  Lines 185 to 198 of \<^verbatim>\<open>listMailMessages\<close>: a \<^verbatim>\<open>sql.NullString\<close> is a string option
  (\<^verbatim>\<open>Valid\<close> is \<open>Some\<close>); when it is not valid the slice field keeps its zero value,
  the nil slice, which has no elements.
\<close>

definition parseAddresses :: "string option \<Rightarrow> string list" where
  "parseAddresses raw =
     (case raw of
        None \<Rightarrow> []
      | Some s \<Rightarrow> FieldsFunc s is_semicolon)"

text \<open>
  The specification's wording of the parser, for comparison: split at every delimiter
  (keeping the empty fields, as \<^verbatim>\<open>strings.Split\<close> does), then discard the empty fields.
\<close>

fun split_at_delimiter :: "char \<Rightarrow> string \<Rightarrow> string list" where
  "split_at_delimiter d [] = [[]]"
| "split_at_delimiter d (c # cs) =
     (if c = d then [] # split_at_delimiter d cs
      else (case split_at_delimiter d cs of
              [] \<Rightarrow> [[c]]
            | fld # flds \<Rightarrow> (c # fld) # flds))"

definition spec_parseAddresses :: "string option \<Rightarrow> string list" where
  "spec_parseAddresses raw =
     (case raw of
        None \<Rightarrow> []
      | Some s \<Rightarrow> filter (\<lambda>fld. fld \<noteq> []) (split_at_delimiter CHR '';'' s))"

subsection \<open>Data\<close>

text \<open>
  An error value. \<open>External\<close> is an error produced outside the program (by the driver,
  the network or the relay), identified by a number; \<open>ScanNull\<close> is the error of
  \<^verbatim>\<open>rows.Scan\<close> when the column with the given index is NULL and its destination cannot
  hold NULL; \<open>Wrap\<close> is \<^verbatim>\<open>fmt.Errorf("...: %w", err)\<close>.
\<close>

datatype error =
    External nat
  | ScanNull nat
  | Wrap string error

type_synonym time = int

text \<open>
  A row of \<^verbatim>\<open>dbo.tb_getEmailWiseSend\<close>, with the columns the query selects. The schema
  is not part of the repository: \<^verbatim>\<open>TWID\<close> is taken to be the integer key of the table
  (the code scans it into an \<^verbatim>\<open>int64\<close> and does no arithmetic on it), every other
  column may hold NULL (\<open>None\<close>).
\<close>

record row =
  TWID :: int
  Txnno :: "string option"
  Ruleid :: "string option"
  txtdate :: "string option"
  toaddress :: "string option"
  bccaddress :: "string option"
  subjects :: "string option"
  contents :: "string option"
  rectype :: "string option"
  senddatetime :: "time option"
  comments :: "string option"

type_synonym table = "row list"

text \<open>The struct \<^verbatim>\<open>Message\<close>.\<close>

record Message =
  ID :: int
  TxnNo :: string
  RuleID :: string
  Time :: string
  Subject :: string
  Content :: string
  Status :: string
  Comment :: string
  ToAddresses :: "string list"
  BCCAddresses :: "string list"
  SentAt :: "time option"

text \<open>
  What the code puts into a \<^verbatim>\<open>mail.Message\<close> of \<^verbatim>\<open>gopkg.in/mail.v2\<close>: the header
  (a Go map from field name to values, here an association list with one entry per
  field) and the body parts (content type and text). How the library renders and
  delivers them when sending is outside this model.
\<close>

record mail_Message =
  header :: "(string \<times> string list) list"
  parts :: "(string \<times> string) list"

text \<open>The calls that leave the process, in the order they are made.\<close>

datatype event =
    Exec_pd_wiseSendEmail
  | Query_tb_getEmailWiseSend
  | DialAndSend "mail_Message list"
  | Exec_pd_updategetemailwisesend string

record world =
  tbl :: table
  calls :: "event list"

text \<open>
  The environment of one invocation. Every external call gets the trace of the calls made
  before it, so that its outcome may differ from one call to the next whatever the table
  holds. A stored procedure returns an optional error and the table it leaves behind.
  \<open>rows_fault\<close> is a failure while iterating the result set: \<open>Some (n, e)\<close> when
  \<^verbatim>\<open>rows.Next\<close> stops after \<open>n\<close> rows and \<^verbatim>\<open>rows.Err\<close> then returns \<open>e\<close>.
  \<open>encodeWord\<close> is the encoded-word that \<^verbatim>\<open>mime.QEncoding\<close> of the Go standard library
  makes of a string for the charset \<^verbatim>\<open>UTF-8\<close>.
\<close>

record env =
  today :: string
  MAIL_FROM :: string
  pd_wiseSendEmail :: "event list \<Rightarrow> table \<Rightarrow> error option \<times> table"
  pd_updategetemailwisesend :: "event list \<Rightarrow> string \<Rightarrow> table \<Rightarrow> error option \<times> table"
  query_fault :: "event list \<Rightarrow> table \<Rightarrow> error option"
  rows_fault :: "event list \<Rightarrow> table \<Rightarrow> (nat \<times> error) option"
  smtp_relay :: "event list \<Rightarrow> mail_Message list \<Rightarrow> error option"
  encodeWord :: "string \<Rightarrow> string"

subsection \<open>The storage calls\<close>

text \<open>\<^verbatim>\<open>db.ExecContext(ctx, "EXEC dbo.pd_wiseSendEmail")\<close>.\<close>

definition ExecContext_pd_wiseSendEmail :: "env \<Rightarrow> world \<Rightarrow> error option \<times> world" where
  "ExecContext_pd_wiseSendEmail e w =
     (case pd_wiseSendEmail e (calls w) (tbl w) of
        (r, t) \<Rightarrow> (r, \<lparr>tbl = t, calls = calls w @ [Exec_pd_wiseSendEmail]\<rparr>))"

text \<open>
  \<^verbatim>\<open>db.ExecContext(ctx, "EXEC dbo.pd_updategetemailwisesend @txnno", sql.Named("txnno", k))\<close>.
\<close>

definition ExecContext_pd_updategetemailwisesend :: "env \<Rightarrow> string \<Rightarrow> world \<Rightarrow> error option \<times> world" where
  "ExecContext_pd_updategetemailwisesend e k w =
     (case pd_updategetemailwisesend e (calls w) k (tbl w) of
        (r, t) \<Rightarrow> (r, \<lparr>tbl = t, calls = calls w @ [Exec_pd_updategetemailwisesend k]\<rparr>))"

text \<open>
  The statement built by squirrel. \<^verbatim>\<open>Where(pred, args...)\<close> uses \<^verbatim>\<open>args\<close> only when
  \<^verbatim>\<open>pred\<close> is a string; here \<^verbatim>\<open>pred\<close> is the \<^verbatim>\<open>sq.Eq\<close> map, so the \<^verbatim>\<open>sq.NotEq\<close>
  passed after it does not reach the statement, which is
  \<^verbatim>\<open>SELECT TOP 100 TWID, ... FROM dbo.tb_getEmailWiseSend
  WHERE rectype = @p1 AND txtdate = @p2 ORDER BY TWID ASC\<close>
  with \<^verbatim>\<open>@p1 = "ADD"\<close> and \<^verbatim>\<open>@p2 = time.Now().Format("2006-01-02")\<close>. A comparison
  with NULL is not true, so a row whose \<^verbatim>\<open>rectype\<close> or \<^verbatim>\<open>txtdate\<close> is NULL does not
  match; the comparison of two strings is taken to be equality (a binary collation).
  Rows with the same \<^verbatim>\<open>TWID\<close> come in the order the table holds them.
\<close>

definition where_clause :: "string \<Rightarrow> row \<Rightarrow> bool" where
  "where_clause day r = (rectype r = Some ''ADD'' \<and> txtdate r = Some day)"

definition select_top100 :: "string \<Rightarrow> table \<Rightarrow> row list" where
  "select_top100 day t = take 100 (sort_key TWID (filter (where_clause day) t))"

text \<open>
  \<^verbatim>\<open>db.QueryContext(ctx, q, args...)\<close> and the rows that \<^verbatim>\<open>rows.Next\<close> then delivers,
  with the error \<^verbatim>\<open>rows.Err\<close> reports after the loop.
\<close>

definition QueryContext :: "env \<Rightarrow> world \<Rightarrow> (error + row list \<times> error option) \<times> world" where
  "QueryContext e w =
     (let w' = w\<lparr>calls := calls w @ [Query_tb_getEmailWiseSend]\<rparr> in
      case query_fault e (calls w) (tbl w) of
        Some err \<Rightarrow> (Inl err, w')
      | None \<Rightarrow>
          (case rows_fault e (calls w) (tbl w) of
             None \<Rightarrow> (Inr (select_top100 (today e) (tbl w), None), w')
           | Some (n, err) \<Rightarrow> (Inr (take n (select_top100 (today e) (tbl w)), Some err), w')))"

subsection \<open>\<^verbatim>\<open>listMailMessages\<close>\<close>

text \<open>
  \<^verbatim>\<open>rows.Scan\<close> assigns the columns from left to right and fails at the first NULL
  whose destination is a plain \<^verbatim>\<open>string\<close>; the two \<^verbatim>\<open>sql.NullString\<close> destinations
  and the \<^verbatim>\<open>*time.Time\<close> accept NULL.
\<close>

definition scan_string :: "nat \<Rightarrow> string option \<Rightarrow> error + string" where
  "scan_string i v = (case v of None \<Rightarrow> Inl (ScanNull i) | Some s \<Rightarrow> Inr s)"

definition scan_row :: "row \<Rightarrow> error + Message" where
  "scan_row r =
     (case scan_string 1 (Txnno r) of Inl err \<Rightarrow> Inl err | Inr txnno \<Rightarrow>
     (case scan_string 2 (Ruleid r) of Inl err \<Rightarrow> Inl err | Inr ruleid \<Rightarrow>
     (case scan_string 3 (txtdate r) of Inl err \<Rightarrow> Inl err | Inr date \<Rightarrow>
     (case scan_string 6 (subjects r) of Inl err \<Rightarrow> Inl err | Inr subject \<Rightarrow>
     (case scan_string 7 (contents r) of Inl err \<Rightarrow> Inl err | Inr content \<Rightarrow>
     (case scan_string 8 (rectype r) of Inl err \<Rightarrow> Inl err | Inr status \<Rightarrow>
     (case scan_string 10 (comments r) of Inl err \<Rightarrow> Inl err | Inr comment \<Rightarrow>
        Inr \<lparr>ID = TWID r, TxnNo = txnno, RuleID = ruleid, Time = date,
             Subject = subject, Content = content, Status = status, Comment = comment,
             ToAddresses = parseAddresses (toaddress r),
             BCCAddresses = parseAddresses (bccaddress r),
             SentAt = senddatetime r\<rparr>)))))))"

text \<open>The loop \<^verbatim>\<open>for rows.Next() { ... ms = append(ms, &m) }\<close>.\<close>

fun scan_rows :: "row list \<Rightarrow> Message list \<Rightarrow> error + Message list" where
  "scan_rows [] ms = Inr ms"
| "scan_rows (r # rs) ms =
     (case scan_row r of
        Inl err \<Rightarrow> Inl (Wrap ''failed to scan tb_getEmailWiseSend'' err)
      | Inr m \<Rightarrow> scan_rows rs (ms @ [m]))"

definition listMailMessages :: "env \<Rightarrow> world \<Rightarrow> (error + Message list) \<times> world" where
  "listMailMessages e w =
     (case ExecContext_pd_wiseSendEmail e w of
        (Some err, w1) \<Rightarrow>
          (Inl (Wrap ''failed to execute stored procedure pd_wiseSendEmail'' err), w1)
      | (None, w1) \<Rightarrow>
          (case QueryContext e w1 of
             (Inl err, w2) \<Rightarrow> (Inl (Wrap ''failed to query tb_getEmailWiseSend'' err), w2)
           | (Inr (rows, rows_err), w2) \<Rightarrow>
               (case scan_rows rows [] of
                  Inl err \<Rightarrow> (Inl err, w2)
                | Inr ms \<Rightarrow>
                    (case rows_err of
                       Some err \<Rightarrow> (Inl (Wrap ''failed to iterate tb_getEmailWiseSend'' err), w2)
                     | None \<Rightarrow> (Inr ms, w2)))))"

subsection \<open>\<^verbatim>\<open>Service.ListMessages\<close> and \<^verbatim>\<open>Service.Send\<close>\<close>

text \<open>Logging through \<^verbatim>\<open>zlog\<close> is left out; it touches neither storage nor the relay.\<close>

definition ListMessages :: "env \<Rightarrow> world \<Rightarrow> (error + Message list) \<times> world" where
  "ListMessages e w =
     (case listMailMessages e w of
        (Inl err, w1) \<Rightarrow> (Inl err, w1)
      | (Inr messages, w1) \<Rightarrow> (Inr messages, w1))"

text \<open>
  \<^verbatim>\<open>mail.NewMessage()\<close> of \<^verbatim>\<open>gopkg.in/mail.v2\<close> sets the charset \<^verbatim>\<open>UTF-8\<close> and the
  header encoder \<^verbatim>\<open>mime.QEncoding\<close>, and \<^verbatim>\<open>SetHeader\<close> passes every value through
  that encoder before it stores it. \<^verbatim>\<open>mime.WordEncoder.Encode\<close> returns a string as it
  is unless \<^verbatim>\<open>needsEncoding\<close> finds a character that is neither printable ASCII nor a
  tab (any byte from 128 on starts such a character), and otherwise returns
  the encoded-word of RFC 2047, which is the field \<open>encodeWord\<close> of the environment.
\<close>

fun needsEncoding :: "string \<Rightarrow> bool" where
  "needsEncoding [] = False"
| "needsEncoding (b # s) =
     (if ((of_char b :: nat) < 32 \<or> 126 < (of_char b :: nat)) \<and> (of_char b :: nat) \<noteq> 9
      then True else needsEncoding s)"

definition encodeString :: "env \<Rightarrow> string \<Rightarrow> string" where
  "encodeString e v = (if needsEncoding v then encodeWord e v else v)"

text \<open>
  \<^verbatim>\<open>m.encodeHeader(values)\<close> overwrites each element of the slice with its encoding:
  \<^verbatim>\<open>values[i] = m.encodeString(values[i])\<close>. The result is the slice afterwards.
\<close>

definition encodeHeader :: "env \<Rightarrow> string list \<Rightarrow> string list" where
  "encodeHeader e vs = map (encodeString e) vs"

text \<open>The Go map assignment \<^verbatim>\<open>m.header[field] = value\<close>.\<close>

fun header_assign :: "string \<Rightarrow> string list \<Rightarrow> (string \<times> string list) list \<Rightarrow> (string \<times> string list) list" where
  "header_assign field v [] = [(field, v)]"
| "header_assign field v ((k, old) # h) =
     (if k = field then (k, v) # h else (k, old) # header_assign field v h)"

text \<open>
  \<^verbatim>\<open>m.SetHeader(field, value...)\<close>: \<^verbatim>\<open>m.encodeHeader(value)\<close>, then
  \<^verbatim>\<open>m.header[field] = value\<close>. It returns the message and the slice \<^verbatim>\<open>value\<close> as
  the call leaves it: a caller that passes a slice of its own with \<^verbatim>\<open>...\<close> shares
  the elements with the callee and sees them encoded afterwards.
\<close>

definition SetHeader :: "env \<Rightarrow> string \<Rightarrow> string list \<Rightarrow> mail_Message \<Rightarrow> mail_Message \<times> string list" where
  "SetHeader e field v m =
     (let v' = encodeHeader e v
      in (m\<lparr>header := header_assign field v' (header m)\<rparr>, v'))"

definition body_open :: string where
  \<open>body_open = ''<html><body style="font-family: Saysettha OT;">''\<close>

definition body_close :: string where
  "body_close = ''</body></html>''"

text \<open>
  The body of the first loop of \<^verbatim>\<open>Send\<close>, lines 74 to 79, for one message: the
  \<^verbatim>\<open>mail.Message\<close> it builds, and the fetched message afterwards, whose two address
  slices went to \<^verbatim>\<open>SetHeader\<close> with \<^verbatim>\<open>...\<close>. \<^verbatim>\<open>SetBody\<close> stores the content type
  and the text of the single part.
\<close>

definition build_body :: "env \<Rightarrow> Message \<Rightarrow> mail_Message \<times> Message" where
  "build_body e msg =
     (let m0 = \<lparr>header = [], parts = []\<rparr>;
          (m1, from') = SetHeader e ''From'' [MAIL_FROM e] m0;
          (m2, to') = SetHeader e ''To'' (ToAddresses msg) m1;
          msg1 = msg\<lparr>ToAddresses := to'\<rparr>;
          (m3, cc') = SetHeader e ''CC'' (BCCAddresses msg1) m2;
          msg2 = msg1\<lparr>BCCAddresses := cc'\<rparr>;
          (m4, subject') = SetHeader e ''Subject'' [Subject msg2] m3
      in (m4\<lparr>parts := [(''text/html'', body_open @ Content msg2 @ body_close)]\<rparr>, msg2))"

text \<open>The e-mail built for a message.\<close>

definition build :: "env \<Rightarrow> Message \<Rightarrow> mail_Message" where
  "build e msg = fst (build_body e msg)"

text \<open>
  The loop itself: \<^verbatim>\<open>messages = append(messages, m)\<close> for each fetched message. It
  returns \<^verbatim>\<open>messages\<close> and the fetched messages as the loop leaves them.
\<close>

fun build_loop :: "env \<Rightarrow> Message list \<Rightarrow> mail_Message list \<Rightarrow> mail_Message list \<times> Message list" where
  "build_loop e [] messages = (messages, [])"
| "build_loop e (msg # rest) messages =
     (case build_body e msg of
        (m, msg') \<Rightarrow>
          (case build_loop e rest (messages @ [m]) of
             (messages', rest') \<Rightarrow> (messages', msg' # rest')))"

text \<open>\<^verbatim>\<open>dialer.DialAndSend(messages...)\<close>.\<close>

definition dialer_DialAndSend :: "env \<Rightarrow> mail_Message list \<Rightarrow> world \<Rightarrow> error option \<times> world" where
  "dialer_DialAndSend e messages w =
     (smtp_relay e (calls w) messages, w\<lparr>calls := calls w @ [DialAndSend messages]\<rparr>)"

text \<open>The second loop of \<^verbatim>\<open>Send\<close>, lines 97 to 103, which returns at the first error.\<close>

fun commit_loop :: "env \<Rightarrow> Message list \<Rightarrow> world \<Rightarrow> error option \<times> world" where
  "commit_loop e [] w = (None, w)"
| "commit_loop e (msg # rest) w =
     (case ExecContext_pd_updategetemailwisesend e (TxnNo msg) w of
        (Some err, w') \<Rightarrow> (Some err, w')
      | (None, w') \<Rightarrow> commit_loop e rest w')"

text \<open>
  \<^verbatim>\<open>Send\<close>, one invocation run from start to end. The mutex it holds meanwhile has no
  counterpart here: the model has no second thread.
\<close>

definition Send :: "env \<Rightarrow> world \<Rightarrow> error option \<times> world" where
  "Send e w =
     (case listMailMessages e w of
        (Inl err, w1) \<Rightarrow> (Some err, w1)
      | (Inr rawsMessages, w1) \<Rightarrow>
          if length rawsMessages = 0 then (None, w1)
          else
            (case build_loop e rawsMessages [] of
               (messages, rawsMessages') \<Rightarrow>
                 (case dialer_DialAndSend e messages w1 of
                    (Some err, w2) \<Rightarrow> (Some err, w2)
                  | (None, w2) \<Rightarrow> commit_loop e rawsMessages' w2)))"

text \<open>
  The world after the acknowledgment procedure has been called for each of the given
  messages in turn, whatever each call returned.
\<close>

definition after_commits :: "env \<Rightarrow> Message list \<Rightarrow> world \<Rightarrow> world" where
  "after_commits e ms w =
     fold (\<lambda>msg w'. snd (ExecContext_pd_updategetemailwisesend e (TxnNo msg) w')) ms w"

subsection \<open>Example tables and environments\<close>

text \<open>
  Two pending rows of the first of May (the second with an empty, not NULL, recipient
  column) and one row already sent; the table holds them out of key order.
\<close>

definition row_a :: row where
  "row_a = \<lparr>TWID = 1, Txnno = Some ''T1'', Ruleid = Some ''R7'', txtdate = Some ''2024-05-01'',
     toaddress = Some ''a@x;b@x;;c@x'', bccaddress = None, subjects = Some ''Hello'',
     contents = Some ''<p>Hi</p>'', rectype = Some ''ADD'', senddatetime = None,
     comments = Some []\<rparr>"

definition row_b :: row where
  "row_b = \<lparr>TWID = 2, Txnno = Some ''T2'', Ruleid = Some ''R7'', txtdate = Some ''2024-05-01'',
     toaddress = Some [], bccaddress = Some ''d@x'', subjects = Some ''Bye'',
     contents = Some ''<p>Bye</p>'', rectype = Some ''ADD'', senddatetime = None,
     comments = Some []\<rparr>"

definition row_sent :: row where
  "row_sent = \<lparr>TWID = 0, Txnno = Some ''T0'', Ruleid = Some ''R7'', txtdate = Some ''2024-05-01'',
     toaddress = Some ''e@x'', bccaddress = None, subjects = Some ''Old'',
     contents = Some ''<p>Old</p>'', rectype = Some ''SEND'', senddatetime = Some 1714521600,
     comments = Some []\<rparr>"

definition msg_a :: Message where
  "msg_a = \<lparr>ID = 1, TxnNo = ''T1'', RuleID = ''R7'', Time = ''2024-05-01'',
     Subject = ''Hello'', Content = ''<p>Hi</p>'', Status = ''ADD'', Comment = [],
     ToAddresses = [''a@x'', ''b@x'', ''c@x''], BCCAddresses = [], SentAt = None\<rparr>"

definition msg_b :: Message where
  "msg_b = \<lparr>ID = 2, TxnNo = ''T2'', RuleID = ''R7'', Time = ''2024-05-01'',
     Subject = ''Bye'', Content = ''<p>Bye</p>'', Status = ''ADD'', Comment = [],
     ToAddresses = [], BCCAddresses = [''d@x''], SentAt = None\<rparr>"

definition mark_sent :: "string \<Rightarrow> table \<Rightarrow> table" where
  "mark_sent k t = map (\<lambda>r. if Txnno r = Some k then r\<lparr>rectype := Some ''SEND''\<rparr> else r) t"

text \<open>
  The encoded-word that Q encoding makes of a string short enough to fit one word (at
  most 63 bytes once encoded): a space becomes an underscore, a printable ASCII byte
  other than \<^verbatim>\<open>=\<close>, \<^verbatim>\<open>?\<close> and \<^verbatim>\<open>_\<close> stays, any other byte becomes \<^verbatim>\<open>=\<close> and its two
  upper-case hexadecimal digits. It is the \<open>encodeWord\<close> of the example environments.
\<close>

definition upperhex :: string where
  "upperhex = ''0123456789ABCDEF''"

definition q_byte :: "char \<Rightarrow> string" where
  "q_byte b =
     (if b = CHR '' '' then ''_''
      else if 33 \<le> (of_char b :: nat) \<and> (of_char b :: nat) \<le> 126
              \<and> b \<noteq> CHR ''='' \<and> b \<noteq> CHR ''?'' \<and> b \<noteq> CHR ''_'' then [b]
      else [CHR ''='', upperhex ! ((of_char b :: nat) div 16), upperhex ! ((of_char b :: nat) mod 16)])"

definition q_word :: "string \<Rightarrow> string" where
  "q_word v = ''=?UTF-8?q?'' @ concat (map q_byte v) @ ''?=''"

text \<open>Nothing fails; generation adds nothing; acknowledging a key marks its rows sent.\<close>

definition env_ok :: env where
  "env_ok = \<lparr>today = ''2024-05-01'', MAIL_FROM = ''noreply@x'',
     pd_wiseSendEmail = (\<lambda>cs t. (None, t)),
     pd_updategetemailwisesend = (\<lambda>cs k t. (None, mark_sent k t)),
     query_fault = (\<lambda>cs t. None),
     rows_fault = (\<lambda>cs t. None),
     smtp_relay = (\<lambda>cs ms. None),
     encodeWord = q_word\<rparr>"

text \<open>The relay rejects every batch.\<close>

definition env_relay_down :: env where
  "env_relay_down = env_ok\<lparr>smtp_relay := (\<lambda>cs ms. Some (External 1))\<rparr>"

text \<open>The acknowledgment of key \<^verbatim>\<open>T2\<close> fails.\<close>

definition env_commit_fails :: env where
  "env_commit_fails = env_ok\<lparr>pd_updategetemailwisesend :=
     (\<lambda>cs k t. if k = ''T2'' then (Some (External 2), t) else (None, mark_sent k t))\<rparr>"

text \<open>The generation step materialises a pending row.\<close>

definition env_generates :: env where
  "env_generates = env_ok\<lparr>pd_wiseSendEmail := (\<lambda>cs t. (None, t @ [row_a]))\<rparr>"

definition w_pending :: world where
  "w_pending = \<lparr>tbl = [row_b, row_sent, row_a], calls = []\<rparr>"

definition w_fetched :: world where
  "w_fetched = \<lparr>tbl = [row_b, row_sent, row_a],
     calls = [Exec_pd_wiseSendEmail, Query_tb_getEmailWiseSend]\<rparr>"

definition w_idle :: world where
  "w_idle = \<lparr>tbl = [row_sent], calls = []\<rparr>"

definition w_idle_fetched :: world where
  "w_idle_fetched = \<lparr>tbl = [row_sent],
     calls = [Exec_pd_wiseSendEmail, Query_tb_getEmailWiseSend]\<rparr>"

text \<open>A pending row of the day whose recipient column is NULL, alone in its table.\<close>

definition row_null :: row where
  "row_null = \<lparr>TWID = 3, Txnno = Some ''T3'', Ruleid = Some ''R7'', txtdate = Some ''2024-05-01'',
     toaddress = None, bccaddress = None, subjects = Some ''Lost'',
     contents = Some ''<p>Lost</p>'', rectype = Some ''ADD'', senddatetime = None,
     comments = Some []\<rparr>"

definition msg_null :: Message where
  "msg_null = \<lparr>ID = 3, TxnNo = ''T3'', RuleID = ''R7'', Time = ''2024-05-01'',
     Subject = ''Lost'', Content = ''<p>Lost</p>'', Status = ''ADD'', Comment = [],
     ToAddresses = [], BCCAddresses = [], SentAt = None\<rparr>"

definition w_null :: world where
  "w_null = \<lparr>tbl = [row_null], calls = []\<rparr>"

definition w_null_fetched :: world where
  "w_null_fetched = \<lparr>tbl = [row_null],
     calls = [Exec_pd_wiseSendEmail, Query_tb_getEmailWiseSend]\<rparr>"

text \<open>
  A message whose subject is the Lao letter so (U+0EAA, the three bytes E0 BA AA in
  UTF-8).
\<close>

definition msg_lao :: Message where
  "msg_lao = \<lparr>ID = 4, TxnNo = ''T4'', RuleID = ''R7'', Time = ''2024-05-01'',
     Subject = [CHR 0xE0, CHR 0xBA, CHR 0xAA], Content = ''<p>Hi</p>'', Status = ''ADD'',
     Comment = [], ToAddresses = [''a@x''], BCCAddresses = [], SentAt = None\<rparr>"

text \<open>The generation step fails.\<close>

definition env_storage_down :: env where
  "env_storage_down = env_ok\<lparr>pd_wiseSendEmail := (\<lambda>cs t. (Some (External 3), t))\<rparr>"

subsection \<open>The address parser\<close>

lemma FieldsFunc_loop_split:
  "FieldsFunc_loop (\<lambda>c. c = d) s start spans =
     spans @ (case start of
        None \<Rightarrow> filter (\<lambda>fld. fld \<noteq> []) (split_at_delimiter d s)
      | Some fld \<Rightarrow>
          (case split_at_delimiter d s of
             [] \<Rightarrow> [fld]
           | x # xs \<Rightarrow> (fld @ x) # filter (\<lambda>fld. fld \<noteq> []) xs))"
  by (induction s arbitrary: start spans) (auto split: option.splits list.splits)

lemma is_semicolon_eq: "is_semicolon = (\<lambda>c. c = CHR '';'')"
  by (rule ext) (simp add: is_semicolon_def)

lemma parseAddresses_refines: "parseAddresses raw = spec_parseAddresses raw"
  by (cases raw)
     (simp_all add: parseAddresses_def spec_parseAddresses_def FieldsFunc_def
        is_semicolon_eq FieldsFunc_loop_split)

lemma split_at_delimiter_nonempty: "split_at_delimiter d s \<noteq> []"
  by (induction s) (auto split: list.splits)

lemma concat_split_at_delimiter:
  "concat (split_at_delimiter d s) = filter (\<lambda>c. c \<noteq> d) s"
  using split_at_delimiter_nonempty [of d]
  by (induction s) (auto split: list.splits)

lemma concat_filter_nonempty: "concat (filter (\<lambda>fld. fld \<noteq> []) xss) = concat xss"
  by (induction xss) auto

text \<open>
  C5. Parsing an address column is splitting it at every \<^verbatim>\<open>';'\<close> and dropping the empty
  fields: the code's parser equals the specification's on every input, present or absent.
  Its result never contains an empty element, the fields in order spell out the input
  without its delimiters, an absent column gives the empty list, and
  \<^verbatim>\<open>"a@x;b@x;;c@x"\<close> gives \<^verbatim>\<open>["a@x","b@x","c@x"]\<close>.
\<close>

theorem parseAddresses_fields:
  "parseAddresses raw = spec_parseAddresses raw
   \<and> [] \<notin> set (parseAddresses raw)
   \<and> concat (parseAddresses (Some s)) = filter (\<lambda>c. c \<noteq> CHR '';'') s
   \<and> parseAddresses None = []
   \<and> parseAddresses (Some ''a@x;b@x;;c@x'') = [''a@x'', ''b@x'', ''c@x'']"
proof -
  have r: "\<And>x. parseAddresses x = spec_parseAddresses x"
    by (rule parseAddresses_refines)
  have "[] \<notin> set (spec_parseAddresses raw)"
    by (cases raw) (simp_all add: spec_parseAddresses_def)
  moreover have "concat (spec_parseAddresses (Some s)) = filter (\<lambda>c. c \<noteq> CHR '';'') s"
    by (simp add: spec_parseAddresses_def concat_filter_nonempty concat_split_at_delimiter)
  moreover have "spec_parseAddresses None = []"
    by (simp add: spec_parseAddresses_def)
  moreover have "spec_parseAddresses (Some ''a@x;b@x;;c@x'') = [''a@x'', ''b@x'', ''c@x'']"
    by (simp add: spec_parseAddresses_def)
  ultimately show ?thesis by (simp add: r)
qed

subsection \<open>Evaluating the examples\<close>

lemmas example_defs = row_a_def row_b_def row_sent_def msg_a_def msg_b_def mark_sent_def
  env_ok_def env_relay_down_def env_commit_fails_def env_generates_def
  w_pending_def w_fetched_def w_idle_def w_idle_fetched_def
  row_null_def msg_null_def w_null_def w_null_fetched_def

lemmas fetch_defs = listMailMessages_def ExecContext_pd_wiseSendEmail_def QueryContext_def
  select_top100_def where_clause_def scan_row_def scan_string_def parseAddresses_def
  FieldsFunc_def is_semicolon_def

lemma fetch_pending: "listMailMessages env_ok w_pending = (Inr [msg_a, msg_b], w_fetched)"
  by (simp add: example_defs fetch_defs)

lemma fetch_pending_relay_down:
  "listMailMessages env_relay_down w_pending = (Inr [msg_a, msg_b], w_fetched)"
  by (simp add: example_defs fetch_defs)

lemma fetch_pending_commit_fails:
  "listMailMessages env_commit_fails w_pending = (Inr [msg_a, msg_b], w_fetched)"
  by (simp add: example_defs fetch_defs)

lemma fetch_idle: "listMailMessages env_ok w_idle = (Inr [], w_idle_fetched)"
  by (simp add: example_defs fetch_defs)

lemma select_pending: "select_top100 (today env_ok) (tbl w_fetched) = [row_a, row_b]"
  by (simp add: example_defs fetch_defs)

lemma fetch_storage_down:
  "listMailMessages env_storage_down w_pending =
     (Inl (Wrap ''failed to execute stored procedure pd_wiseSendEmail'' (External 3)),
      \<lparr>tbl = [row_b, row_sent, row_a], calls = [Exec_pd_wiseSendEmail]\<rparr>)"
  by (simp add: listMailMessages_def ExecContext_pd_wiseSendEmail_def env_storage_down_def
      env_ok_def w_pending_def)

lemma fetch_null: "listMailMessages env_ok w_null = (Inr [msg_null], w_null_fetched)"
  by (simp add: example_defs fetch_defs)

lemma select_null: "select_top100 (today env_ok) (tbl w_null_fetched) = [row_null]"
  by (simp add: example_defs fetch_defs)

subsection \<open>The fetch\<close>

lemma scan_rows_acc:
  "scan_rows rs acc = Inr ms \<Longrightarrow>
     \<exists>ms'. ms = acc @ ms' \<and> list_all2 (\<lambda>r m. scan_row r = Inr m) rs ms'"
proof (induction rs arbitrary: acc)
  case Nil
  then show ?case by simp
next
  case (Cons r rs)
  from Cons.prems obtain m where m: "scan_row r = Inr m"
    and rest: "scan_rows rs (acc @ [m]) = Inr ms"
    by (auto split: sum.splits)
  from Cons.IH [OF rest] obtain ms' where "ms = (acc @ [m]) @ ms'"
    and "list_all2 (\<lambda>r m. scan_row r = Inr m) rs ms'" by blast
  with m show ?case by simp
qed

lemma scan_rows_Inr:
  "scan_rows rs [] = Inr ms \<Longrightarrow> list_all2 (\<lambda>r m. scan_row r = Inr m) rs ms"
  using scan_rows_acc [of rs "[]" ms] by simp

lemma listMailMessages_Inr:
  assumes "listMailMessages e w = (Inr ms, w1)"
  shows "w1 = \<lparr>tbl = snd (pd_wiseSendEmail e (calls w) (tbl w)),
               calls = calls w @ [Exec_pd_wiseSendEmail, Query_tb_getEmailWiseSend]\<rparr>"
    and "list_all2 (\<lambda>r m. scan_row r = Inr m) (select_top100 (today e) (tbl w1)) ms"
proof -
  obtain r t where p: "pd_wiseSendEmail e (calls w) (tbl w) = (r, t)"
    by (cases "pd_wiseSendEmail e (calls w) (tbl w)")
  from assms p
  have w1: "w1 = \<lparr>tbl = t, calls = calls w @ [Exec_pd_wiseSendEmail, Query_tb_getEmailWiseSend]\<rparr>"
    and sc: "scan_rows (select_top100 (today e) t) [] = Inr ms"
    by (auto simp: listMailMessages_def ExecContext_pd_wiseSendEmail_def QueryContext_def Let_def
        split: option.splits sum.splits prod.splits)
  from w1 p show "w1 = \<lparr>tbl = snd (pd_wiseSendEmail e (calls w) (tbl w)),
               calls = calls w @ [Exec_pd_wiseSendEmail, Query_tb_getEmailWiseSend]\<rparr>" by simp
  from sc w1 show "list_all2 (\<lambda>r m. scan_row r = Inr m) (select_top100 (today e) (tbl w1)) ms"
    by (simp add: scan_rows_Inr)
qed

lemma scan_row_fields:
  "scan_row r = Inr m \<Longrightarrow>
     ID m = TWID r \<and> Txnno r = Some (TxnNo m) \<and> txtdate r = Some (Time m)
     \<and> rectype r = Some (Status m) \<and> subjects r = Some (Subject m)
     \<and> contents r = Some (Content m)
     \<and> ToAddresses m = parseAddresses (toaddress r)
     \<and> BCCAddresses m = parseAddresses (bccaddress r)"
  by (auto simp: scan_row_def scan_string_def split: option.splits sum.splits)

lemma select_top100_length: "length (select_top100 day t) \<le> 100"
  by (simp add: select_top100_def)

lemma select_top100_sorted: "sorted (map TWID (select_top100 day t))"
  unfolding select_top100_def
  by (simp add: take_map [symmetric])

lemma select_top100_subset:
  "set (select_top100 day t) \<subseteq> {r \<in> set t. where_clause day r}"
  unfolding select_top100_def
  using set_take_subset [of 100 "sort_key TWID (filter (where_clause day) t)"]
  by auto

lemma select_top100_all:
  "length (filter (where_clause day) t) \<le> 100 \<Longrightarrow>
     set (select_top100 day t) = {r \<in> set t. where_clause day r}"
  unfolding select_top100_def by auto

lemma sorted_take_drop_le:
  assumes "sorted (map f xs)" and "x \<in> set (take n xs)" and "y \<in> set (drop n xs)"
  shows "f x \<le> f y"
proof -
  have "sorted (map f (take n xs) @ map f (drop n xs))"
    using assms(1) by (simp add: map_append [symmetric] del: map_append)
  with assms(2,3) show ?thesis by (auto simp: sorted_append)
qed

lemma select_top100_least:
  assumes "r \<in> set t" "where_clause day r" "r \<notin> set (select_top100 day t)"
    and "r' \<in> set (select_top100 day t)"
  shows "TWID r' \<le> TWID r"
proof -
  let ?s = "sort_key TWID (filter (where_clause day) t)"
  from assms(1,2) have "r \<in> set ?s" by simp
  then have "r \<in> set (take 100 ?s) \<union> set (drop 100 ?s)"
    by (metis append_take_drop_id set_append)
  with assms(3) have "r \<in> set (drop 100 ?s)" by (simp add: select_top100_def)
  moreover have "sorted (map TWID ?s)" by simp
  ultimately show ?thesis using assms(4) sorted_take_drop_le [of TWID ?s r' 100 r]
    by (simp add: select_top100_def)
qed

lemma listMailMessages_selected:
  assumes "listMailMessages e w = (Inr ms, w1)"
  shows "calls w1 = calls w @ [Exec_pd_wiseSendEmail, Query_tb_getEmailWiseSend]
    \<and> tbl w1 = snd (pd_wiseSendEmail e (calls w) (tbl w))
    \<and> length ms \<le> 100
    \<and> sorted (map ID ms)
    \<and> list_all2 (\<lambda>r m. ID m = TWID r
          \<and> rectype r = Some ''ADD'' \<and> Status m = ''ADD''
          \<and> txtdate r = Some (today e) \<and> Time m = today e
          \<and> ToAddresses m = parseAddresses (toaddress r)
          \<and> BCCAddresses m = parseAddresses (bccaddress r))
        (select_top100 (today e) (tbl w1)) ms
    \<and> set (select_top100 (today e) (tbl w1)) \<subseteq> {r \<in> set (tbl w1). where_clause (today e) r}
    \<and> (length (filter (where_clause (today e)) (tbl w1)) \<le> 100 \<longrightarrow>
         set (select_top100 (today e) (tbl w1)) = {r \<in> set (tbl w1). where_clause (today e) r})
    \<and> (\<forall>r \<in> set (tbl w1). \<forall>r' \<in> set (select_top100 (today e) (tbl w1)).
         where_clause (today e) r \<and> r \<notin> set (select_top100 (today e) (tbl w1)) \<longrightarrow>
         TWID r' \<le> TWID r)"
proof -
  let ?rs = "select_top100 (today e) (tbl w1)"
  note f = listMailMessages_Inr [OF assms]
  have all2: "list_all2 (\<lambda>r m. scan_row r = Inr m) ?rs ms" by (rule f(2))
  have len: "length ms = length ?rs" using all2 by (simp add: list_all2_lengthD)
  have ids: "map ID ms = map TWID ?rs"
  proof (rule nth_equalityI)
    show "length (map ID ms) = length (map TWID ?rs)" using len by simp
  next
    fix i assume "i < length (map ID ms)"
    then have i: "i < length ?rs" using len by simp
    have "scan_row (?rs ! i) = Inr (ms ! i)" by (rule list_all2_nthD [OF all2 i])
    then show "map ID ms ! i = map TWID ?rs ! i"
      using i len by (simp add: scan_row_fields)
  qed
  have wc: "\<And>r. r \<in> set ?rs \<Longrightarrow> where_clause (today e) r"
    using select_top100_subset [of "today e" "tbl w1"] by auto
  have c1: "calls w1 = calls w @ [Exec_pd_wiseSendEmail, Query_tb_getEmailWiseSend]"
    by (subst f(1)) simp
  have c2: "tbl w1 = snd (pd_wiseSendEmail e (calls w) (tbl w))"
    by (subst f(1)) simp
  have c3: "length ms \<le> 100" using len select_top100_length [of "today e" "tbl w1"] by simp
  have c4: "sorted (map ID ms)" using ids select_top100_sorted [of "today e" "tbl w1"] by simp
  have c5: "list_all2 (\<lambda>r m. ID m = TWID r
          \<and> rectype r = Some ''ADD'' \<and> Status m = ''ADD''
          \<and> txtdate r = Some (today e) \<and> Time m = today e
          \<and> ToAddresses m = parseAddresses (toaddress r)
          \<and> BCCAddresses m = parseAddresses (bccaddress r)) ?rs ms"
  proof (rule list_all2_all_nthI)
    show "length ?rs = length ms" using len by simp
  next
    fix i assume i: "i < length ?rs"
    have s: "scan_row (?rs ! i) = Inr (ms ! i)" by (rule list_all2_nthD [OF all2 i])
    from i have "where_clause (today e) (?rs ! i)" by (simp add: wc)
    with scan_row_fields [OF s]
    show "ID (ms ! i) = TWID (?rs ! i)
          \<and> rectype (?rs ! i) = Some ''ADD'' \<and> Status (ms ! i) = ''ADD''
          \<and> txtdate (?rs ! i) = Some (today e) \<and> Time (ms ! i) = today e
          \<and> ToAddresses (ms ! i) = parseAddresses (toaddress (?rs ! i))
          \<and> BCCAddresses (ms ! i) = parseAddresses (bccaddress (?rs ! i))"
      by (auto simp: where_clause_def)
  qed
  have c6: "set ?rs \<subseteq> {r \<in> set (tbl w1). where_clause (today e) r}"
    by (rule select_top100_subset)
  have c7: "length (filter (where_clause (today e)) (tbl w1)) \<le> 100 \<longrightarrow>
         set ?rs = {r \<in> set (tbl w1). where_clause (today e) r}"
    using select_top100_all [of "today e" "tbl w1"] by blast
  have c8: "\<forall>r \<in> set (tbl w1). \<forall>r' \<in> set ?rs.
         where_clause (today e) r \<and> r \<notin> set ?rs \<longrightarrow> TWID r' \<le> TWID r"
    using select_top100_least [of _ "tbl w1" "today e"] by blast
  from c1 c2 c3 c4 c5 c6 c7 c8 show ?thesis by blast
qed

subsection \<open>Building the e-mails\<close>

lemma build_body_eq:
  "build_body e msg =
     (\<lparr>header =
         [(''From'', [encodeString e (MAIL_FROM e)]),
          (''To'', map (encodeString e) (ToAddresses msg)),
          (''CC'', map (encodeString e) (BCCAddresses msg)),
          (''Subject'', [encodeString e (Subject msg)])],
       parts = [(''text/html'', body_open @ Content msg @ body_close)]\<rparr>,
      msg\<lparr>ToAddresses := map (encodeString e) (ToAddresses msg),
          BCCAddresses := map (encodeString e) (BCCAddresses msg)\<rparr>)"
  by (simp add: build_body_def SetHeader_def encodeHeader_def Let_def)

lemma header_build:
  "header (build e msg) =
     [(''From'', [encodeString e (MAIL_FROM e)]),
      (''To'', map (encodeString e) (ToAddresses msg)),
      (''CC'', map (encodeString e) (BCCAddresses msg)),
      (''Subject'', [encodeString e (Subject msg)])]"
  by (simp add: build_def build_body_eq)

lemma parts_build:
  "parts (build e msg) = [(''text/html'', body_open @ Content msg @ body_close)]"
  by (simp add: build_def build_body_eq)

lemma TxnNo_build_body: "TxnNo (snd (build_body e msg)) = TxnNo msg"
  by (simp add: build_body_eq)

lemma build_loop_acc:
  "build_loop e ms acc = (acc @ map (build e) ms, map (\<lambda>m. snd (build_body e m)) ms)"
  by (induction ms arbitrary: acc) (simp_all add: build_def split: prod.splits)

lemma build_loop_map: "fst (build_loop e ms []) = map (build e) ms"
  by (simp add: build_loop_acc)

lemma commit_loop_TxnNo:
  "map TxnNo ms = map TxnNo ms' \<Longrightarrow> commit_loop e ms w = commit_loop e ms' w"
proof (induction ms arbitrary: ms' w)
  case Nil
  then show ?case by simp
next
  case (Cons m ms)
  then obtain m' rest where ms': "ms' = m' # rest" and t: "TxnNo m = TxnNo m'"
    and r: "map TxnNo ms = map TxnNo rest"
    by (cases ms') auto
  show ?case
    by (simp add: ms' t Cons.IH [OF r] split: prod.splits option.splits)
qed

lemma Send_after_fetch:
  assumes "listMailMessages e w = (Inr ms, w1)" and "ms \<noteq> []"
  shows "Send e w =
     (case smtp_relay e (calls w1) (map (build e) ms) of
        Some err \<Rightarrow> (Some err, w1\<lparr>calls := calls w1 @ [DialAndSend (map (build e) ms)]\<rparr>)
      | None \<Rightarrow> commit_loop e ms (w1\<lparr>calls := calls w1 @ [DialAndSend (map (build e) ms)]\<rparr>))"
proof -
  have "map TxnNo (map (\<lambda>m. snd (build_body e m)) ms) = map TxnNo ms"
    by (simp add: TxnNo_build_body o_def)
  then have "\<And>w'. commit_loop e (map (\<lambda>m. snd (build_body e m)) ms) w' = commit_loop e ms w'"
    by (rule commit_loop_TxnNo)
  then show ?thesis
    using assms
    by (simp add: Send_def dialer_DialAndSend_def build_loop_acc split: option.splits)
qed

lemma after_commits_Cons:
  "after_commits e (m # ms) w =
     after_commits e ms (snd (ExecContext_pd_updategetemailwisesend e (TxnNo m) w))"
  by (simp add: after_commits_def)

lemma after_commits_Nil: "after_commits e [] w = w"
  by (simp add: after_commits_def)

lemma calls_after_commits:
  "calls (after_commits e ms w) = calls w @ map (\<lambda>m. Exec_pd_updategetemailwisesend (TxnNo m)) ms"
proof (induction ms arbitrary: w)
  case Nil
  show ?case by (simp add: after_commits_Nil)
next
  case (Cons m ms)
  have "calls (snd (ExecContext_pd_updategetemailwisesend e (TxnNo m) w))
          = calls w @ [Exec_pd_updategetemailwisesend (TxnNo m)]"
    by (simp add: ExecContext_pd_updategetemailwisesend_def split: prod.splits)
  then show ?case by (simp add: after_commits_Cons Cons.IH)
qed

lemma commit_loop_stops:
  "\<exists>k\<le>length ms.
      snd (commit_loop e ms w) = after_commits e (take k ms) w
    \<and> (\<forall>j<k. fst (ExecContext_pd_updategetemailwisesend e (TxnNo (ms ! j))
                    (after_commits e (take j ms) w))
              = (if Suc j = k then fst (commit_loop e ms w) else None))
    \<and> (fst (commit_loop e ms w) = None \<longrightarrow> k = length ms)
    \<and> (fst (commit_loop e ms w) \<noteq> None \<longrightarrow> 0 < k)"
proof (induction ms arbitrary: w)
  case Nil
  show ?case by (simp add: after_commits_Nil)
next
  case (Cons m ms)
  obtain r w' where x: "ExecContext_pd_updategetemailwisesend e (TxnNo m) w = (r, w')"
    by (cases "ExecContext_pd_updategetemailwisesend e (TxnNo m) w")
  show ?case
  proof (cases r)
    case (Some err)
    with x have "snd (commit_loop e (m # ms) w) = after_commits e (take 1 (m # ms)) w"
      and "fst (commit_loop e (m # ms) w) = Some err"
      by (simp_all add: after_commits_Cons after_commits_Nil)
    with x Some show ?thesis
      by (intro exI [of _ 1]) (simp add: after_commits_Nil)
  next
    case None
    with x have step: "commit_loop e (m # ms) w = commit_loop e ms w'" by simp
    from Cons.IH [of w'] obtain k where k: "k \<le> length ms"
      and s: "snd (commit_loop e ms w') = after_commits e (take k ms) w'"
      and o: "\<forall>j<k. fst (ExecContext_pd_updategetemailwisesend e (TxnNo (ms ! j))
                    (after_commits e (take j ms) w'))
              = (if Suc j = k then fst (commit_loop e ms w') else None)"
      and n: "fst (commit_loop e ms w') = None \<longrightarrow> k = length ms"
      and p: "fst (commit_loop e ms w') \<noteq> None \<longrightarrow> 0 < k"
      by (elim exE conjE) (rule that)
    have "\<forall>j<Suc k. fst (ExecContext_pd_updategetemailwisesend e (TxnNo ((m # ms) ! j))
                    (after_commits e (take j (m # ms)) w))
              = (if Suc j = Suc k then fst (commit_loop e (m # ms) w) else None)"
    proof (intro allI impI)
      fix j assume j: "j < Suc k"
      show "fst (ExecContext_pd_updategetemailwisesend e (TxnNo ((m # ms) ! j))
                    (after_commits e (take j (m # ms)) w))
              = (if Suc j = Suc k then fst (commit_loop e (m # ms) w) else None)"
      proof (cases j)
        case 0
        with x None p step show ?thesis by (auto simp: after_commits_Nil)
      next
        case (Suc j')
        with j have "j' < k" by simp
        with o Suc x step show ?thesis by (simp add: after_commits_Cons)
      qed
    qed
    moreover have "snd (commit_loop e (m # ms) w) = after_commits e (take (Suc k) (m # ms)) w"
      using s x step by (simp add: after_commits_Cons)
    ultimately show ?thesis using k n step
      by (intro exI [of _ "Suc k"]) simp
  qed
qed

subsection \<open>The filter on the recipient column\<close>

text \<open>
  C4 does not hold of the code. The fetch calls the generation procedure and then the
  select, but the statement it builds has lost the condition on the recipient column:
  from a table holding one pending row of the day whose recipient column is NULL,
  \<^verbatim>\<open>listMailMessages\<close> returns that row as a message with an empty to-list, and
  \<^verbatim>\<open>Send\<close> goes on to mail and acknowledge it.
\<close>

theorem listMailMessages_fetches_null_recipient:
  "tbl w_null = [row_null]
   \<and> rectype row_null = Some ''ADD'' \<and> txtdate row_null = Some (today env_ok)
   \<and> toaddress row_null = None
   \<and> listMailMessages env_ok w_null = (Inr [msg_null], w_null_fetched)
   \<and> ID msg_null = TWID row_null \<and> ToAddresses msg_null = []
   \<and> calls (snd (Send env_ok w_null)) =
        [Exec_pd_wiseSendEmail, Query_tb_getEmailWiseSend,
         DialAndSend [build env_ok msg_null], Exec_pd_updategetemailwisesend ''T3'']"
proof -
  have ne: "[msg_null] \<noteq> []" by simp
  have r: "smtp_relay env_ok (calls w_null_fetched) (map (build env_ok) [msg_null]) = None"
    by (simp add: env_ok_def)
  have u: "pd_updategetemailwisesend env_ok = (\<lambda>cs k t. (None, mark_sent k t))"
    by (simp add: env_ok_def)
  have "Send env_ok w_null =
      commit_loop env_ok [msg_null]
        (w_null_fetched\<lparr>calls := calls w_null_fetched
           @ [DialAndSend (map (build env_ok) [msg_null])]\<rparr>)"
    using r by (simp only: Send_after_fetch [OF fetch_null ne] option.case)
  also have "calls (snd \<dots>) =
        [Exec_pd_wiseSendEmail, Query_tb_getEmailWiseSend,
         DialAndSend [build env_ok msg_null], Exec_pd_updategetemailwisesend ''T3'']"
    by (simp add: ExecContext_pd_updategetemailwisesend_def u w_null_fetched_def
        msg_null_def)
  finally have c: "calls (snd (Send env_ok w_null)) =
        [Exec_pd_wiseSendEmail, Query_tb_getEmailWiseSend,
         DialAndSend [build env_ok msg_null], Exec_pd_updategetemailwisesend ''T3'']" .
  have d: "tbl w_null = [row_null]" "rectype row_null = Some ''ADD''"
    "txtdate row_null = Some (today env_ok)" "toaddress row_null = None"
    "ID msg_null = TWID row_null" "ToAddresses msg_null = []"
    by (simp_all add: example_defs)
  from c d fetch_null show ?thesis by blast
qed

subsection \<open>The batch handed to the dialer\<close>

text \<open>
  C6, as claimed, fails for the subject: a subject with a character outside printable
  ASCII, here a Lao letter, is stored in the header as its encoded-word, not verbatim.
\<close>

theorem subject_encoded_counterexample:
  "Subject msg_lao = [CHR 0xE0, CHR 0xBA, CHR 0xAA]
   \<and> map_of (header (build env_ok msg_lao)) ''Subject'' = Some [''=?UTF-8?q?=E0=BA=AA?='']
   \<and> map_of (header (build env_ok msg_lao)) ''Subject'' \<noteq> Some [Subject msg_lao]"
  by (simp add: header_build encodeString_def)
     (simp add: msg_lao_def env_ok_def q_word_def q_byte_def upperhex_def)

text \<open>
  C6, amended. The e-mail built for a message has the single body part \<^verbatim>\<open>text/html\<close>
  holding the fixed opening tag, the message's content and the fixed closing tag. Its
  header has exactly the fields \<^verbatim>\<open>From\<close>, \<^verbatim>\<open>To\<close>, \<^verbatim>\<open>CC\<close> and \<^verbatim>\<open>Subject\<close>, whose values
  are the header encodings of the configured sender, of each parsed to-address, of each
  parsed address of the BCC column and of the subject; the header encoding of a value
  is the value itself when it has only printable ASCII characters and tabs, and its
  encoded-word otherwise. The loop builds one e-mail per message in order, and that
  list is the batch \<^verbatim>\<open>Send\<close> hands to the dialer, directly after the fetch.
\<close>

theorem Send_builds_batch:
  \<open>parts (build e msg) =
      [(''text/html'',
        ''<html><body style="font-family: Saysettha OT;">'' @ Content msg @ ''</body></html>'')]
    \<and> header (build e msg) =
        [(''From'', [encodeString e (MAIL_FROM e)]),
         (''To'', map (encodeString e) (ToAddresses msg)),
         (''CC'', map (encodeString e) (BCCAddresses msg)),
         (''Subject'', [encodeString e (Subject msg)])]
    \<and> (\<not> needsEncoding v \<longrightarrow> encodeString e v = v)
    \<and> (needsEncoding v \<longrightarrow> encodeString e v = encodeWord e v)
    \<and> (needsEncoding v \<longleftrightarrow>
         (\<exists>b \<in> set v. ((of_char b :: nat) < 32 \<or> 126 < (of_char b :: nat)) \<and> (of_char b :: nat) \<noteq> 9))
    \<and> fst (build_loop e ms []) = map (build e) ms
    \<and> length (fst (build_loop e ms [])) = length ms
    \<and> (listMailMessages e w = (Inr ms, w1) \<and> ms \<noteq> [] \<longrightarrow>
         take (Suc (length (calls w1))) (calls (snd (Send e w)))
           = calls w1 @ [DialAndSend (map (build e) ms)])\<close>
proof -
  have a: \<open>parts (build e msg) =
      [(''text/html'',
        ''<html><body style="font-family: Saysettha OT;">'' @ Content msg @ ''</body></html>'')]\<close>
    by (simp add: parts_build body_open_def body_close_def)
  have b: "header (build e msg) =
        [(''From'', [encodeString e (MAIL_FROM e)]),
         (''To'', map (encodeString e) (ToAddresses msg)),
         (''CC'', map (encodeString e) (BCCAddresses msg)),
         (''Subject'', [encodeString e (Subject msg)])]"
    by (rule header_build)
  have n: "\<not> needsEncoding v \<longrightarrow> encodeString e v = v"
    "needsEncoding v \<longrightarrow> encodeString e v = encodeWord e v"
    by (simp_all add: encodeString_def)
  have n': "needsEncoding v \<longleftrightarrow>
         (\<exists>b \<in> set v. ((of_char b :: nat) < 32 \<or> 126 < (of_char b :: nat)) \<and> (of_char b :: nat) \<noteq> 9)"
    by (induction v) auto
  have c: "fst (build_loop e ms []) = map (build e) ms"
    "length (fst (build_loop e ms [])) = length ms"
    by (simp_all add: build_loop_map)
  have d: "take (Suc (length (calls w1))) (calls (snd (Send e w)))
           = calls w1 @ [DialAndSend (map (build e) ms)]"
    if f: "listMailMessages e w = (Inr ms, w1)" and ne: "ms \<noteq> []"
  proof (cases "smtp_relay e (calls w1) (map (build e) ms)")
    case (Some err)
    then show ?thesis by (simp add: Send_after_fetch [OF f ne])
  next
    case None
    let ?w2 = "w1\<lparr>calls := calls w1 @ [DialAndSend (map (build e) ms)]\<rparr>"
    obtain k where "snd (commit_loop e ms ?w2) = after_commits e (take k ms) ?w2"
      using commit_loop_stops [of ms e ?w2] by (elim exE conjE) (rule that)
    then have "calls (snd (commit_loop e ms ?w2))
        = (calls w1 @ [DialAndSend (map (build e) ms)])
          @ map (\<lambda>m. Exec_pd_updategetemailwisesend (TxnNo m)) (take k ms)"
      by (simp add: calls_after_commits)
    with None show ?thesis by (simp add: Send_after_fetch [OF f ne])
  qed
  from a b n n' c d show ?thesis by blast
qed

theorem Send_builds_batch_witness:
  \<open>listMailMessages env_ok w_pending = (Inr [msg_a, msg_b], w_fetched) \<and> [msg_a, msg_b] \<noteq> []
    \<and> take (Suc (length (calls w_fetched))) (calls (snd (Send env_ok w_pending)))
         = calls w_fetched @ [DialAndSend (map (build env_ok) [msg_a, msg_b])]
    \<and> parts (build env_ok msg_a) =
         [(''text/html'', ''<html><body style="font-family: Saysettha OT;"><p>Hi</p></body></html>'')]
    \<and> \<not> needsEncoding ''Hello'' \<and> encodeString env_ok ''Hello'' = ''Hello''
    \<and> needsEncoding [CHR 0xE0, CHR 0xBA, CHR 0xAA]
    \<and> encodeString env_ok [CHR 0xE0, CHR 0xBA, CHR 0xAA] = encodeWord env_ok [CHR 0xE0, CHR 0xBA, CHR 0xAA]
    \<and> header (build env_ok msg_b) =
         [(''From'', [''noreply@x'']), (''To'', []), (''CC'', [''d@x'']), (''Subject'', [''Bye''])]\<close>
proof -
  have p: \<open>parts (build env_ok msg_a) =
         [(''text/html'', ''<html><body style="font-family: Saysettha OT;"><p>Hi</p></body></html>'')]\<close>
    using Send_builds_batch [of env_ok msg_a "[]" "[msg_a, msg_b]" w_pending w_fetched]
    by (simp add: msg_a_def)
  have h: "header (build env_ok msg_b) =
         [(''From'', [''noreply@x'']), (''To'', []), (''CC'', [''d@x'']), (''Subject'', [''Bye''])]"
  proof -
    from Send_builds_batch [of env_ok msg_b "[]" "[msg_a, msg_b]" w_pending w_fetched]
    have H: "header (build env_ok msg_b) =
        [(''From'', [encodeString env_ok (MAIL_FROM env_ok)]),
         (''To'', map (encodeString env_ok) (ToAddresses msg_b)),
         (''CC'', map (encodeString env_ok) (BCCAddresses msg_b)),
         (''Subject'', [encodeString env_ok (Subject msg_b)])]"
      by blast
    have v: "encodeString env_ok (MAIL_FROM env_ok) = ''noreply@x''"
      "map (encodeString env_ok) (ToAddresses msg_b) = []"
      "map (encodeString env_ok) (BCCAddresses msg_b) = [''d@x'']"
      "encodeString env_ok (Subject msg_b) = ''Bye''"
      by (simp_all add: encodeString_def env_ok_def msg_b_def)
    show ?thesis by (simp only: H v)
  qed
  have n1: "\<not> needsEncoding ''Hello''" by simp
  have n2: "needsEncoding [CHR 0xE0, CHR 0xBA, CHR 0xAA]" by simp
  have e1: "encodeString env_ok ''Hello'' = ''Hello''"
    using Send_builds_batch [of env_ok msg_a "''Hello''" "[msg_a, msg_b]" w_pending w_fetched] n1
    by blast
  have e2: "encodeString env_ok [CHR 0xE0, CHR 0xBA, CHR 0xAA]
      = encodeWord env_ok [CHR 0xE0, CHR 0xBA, CHR 0xAA]"
    using Send_builds_batch [of env_ok msg_a "[CHR 0xE0, CHR 0xBA, CHR 0xAA]" "[msg_a, msg_b]"
        w_pending w_fetched] n2
    by blast
  have ne: "[msg_a, msg_b] \<noteq> []" by simp
  have t: "take (Suc (length (calls w_fetched))) (calls (snd (Send env_ok w_pending)))
         = calls w_fetched @ [DialAndSend (map (build env_ok) [msg_a, msg_b])]"
    using Send_builds_batch [of env_ok msg_a "[]" "[msg_a, msg_b]" w_pending w_fetched]
      fetch_pending ne by blast
  from fetch_pending ne t p n1 e1 n2 e2 h show ?thesis by blast
qed

subsection \<open>The dispatch cycle\<close>

text \<open>
  C7. When the fetch returns an empty batch, \<^verbatim>\<open>Send\<close> returns no error and stops where
  the fetch stopped: the calls of the cycle are the two storage calls of the fetch, with
  no call of the dialer and no acknowledgment.
\<close>

theorem Send_empty_batch:
  assumes "listMailMessages e w = (Inr [], w1)"
  shows "Send e w = (None, w1)
    \<and> calls (snd (Send e w)) = calls w @ [Exec_pd_wiseSendEmail, Query_tb_getEmailWiseSend]"
proof -
  have "Send e w = (None, w1)" using assms by (simp add: Send_def)
  moreover have "calls w1 = calls w @ [Exec_pd_wiseSendEmail, Query_tb_getEmailWiseSend]"
    by (subst listMailMessages_Inr(1) [OF assms]) simp
  ultimately show ?thesis by simp
qed

theorem Send_empty_batch_witness:
  "listMailMessages env_ok w_idle = (Inr [], w_idle_fetched)
   \<and> Send env_ok w_idle = (None, w_idle_fetched)
   \<and> calls (snd (Send env_ok w_idle)) = [Exec_pd_wiseSendEmail, Query_tb_getEmailWiseSend]"
  using Send_empty_batch [OF fetch_idle] fetch_idle by (simp add: w_idle_def w_idle_fetched_def)

text \<open>
  C2. When the dialer returns an error for the batch, \<^verbatim>\<open>Send\<close> returns that error; the
  calls of the cycle are the two of the fetch and the one of the dialer, with no
  acknowledgment, and the table is as the fetch left it.
\<close>

theorem Send_transport_error:
  assumes "listMailMessages e w = (Inr ms, w1)" and "ms \<noteq> []"
    and "smtp_relay e (calls w1) (map (build e) ms) = Some err"
  shows "fst (Send e w) = Some err
    \<and> calls (snd (Send e w)) =
        calls w @ [Exec_pd_wiseSendEmail, Query_tb_getEmailWiseSend, DialAndSend (map (build e) ms)]
    \<and> tbl (snd (Send e w)) = tbl w1"
proof -
  have "calls w1 = calls w @ [Exec_pd_wiseSendEmail, Query_tb_getEmailWiseSend]"
    by (subst listMailMessages_Inr(1) [OF assms(1)]) simp
  then show ?thesis using assms(3) by (simp add: Send_after_fetch [OF assms(1,2)])
qed

theorem Send_transport_error_witness:
  "listMailMessages env_relay_down w_pending = (Inr [msg_a, msg_b], w_fetched)
   \<and> [msg_a, msg_b] \<noteq> []
   \<and> smtp_relay env_relay_down (calls w_fetched) (map (build env_relay_down) [msg_a, msg_b])
       = Some (External 1)
   \<and> fst (Send env_relay_down w_pending) = Some (External 1)
   \<and> calls (snd (Send env_relay_down w_pending)) =
       [Exec_pd_wiseSendEmail, Query_tb_getEmailWiseSend,
        DialAndSend (map (build env_relay_down) [msg_a, msg_b])]
   \<and> tbl (snd (Send env_relay_down w_pending)) = [row_b, row_sent, row_a]"
proof -
  have r: "smtp_relay env_relay_down (calls w_fetched) (map (build env_relay_down) [msg_a, msg_b])
       = Some (External 1)"
    by (simp add: env_relay_down_def env_ok_def)
  have ne: "[msg_a, msg_b] \<noteq> []" by simp
  from Send_transport_error [OF fetch_pending_relay_down ne r] fetch_pending_relay_down r
  show ?thesis by (simp add: w_pending_def w_fetched_def)
qed

text \<open>
  C1. When the dialer accepts the batch, \<^verbatim>\<open>Send\<close> calls the acknowledgment procedure for
  the first \<open>k\<close> fetched messages, in fetch order and each with that message's
  transaction number, and makes no other call. Every call but the last returned no
  error; the last returned what \<^verbatim>\<open>Send\<close> returns. If \<^verbatim>\<open>Send\<close> returns no error, \<open>k\<close>
  is the size of the batch; if it returns an error, that is the error of call \<open>k\<close>, and
  the messages after it are not acknowledged. The world \<^verbatim>\<open>Send\<close> leaves is the one
  these \<open>k\<close> calls produced: nothing is rolled back.
\<close>

theorem Send_commits_in_order:
  assumes "listMailMessages e w = (Inr ms, w1)" and "ms \<noteq> []"
    and "smtp_relay e (calls w1) (map (build e) ms) = None"
  shows "\<exists>k\<le>length ms.
      calls (snd (Send e w)) =
        calls w1 @ [DialAndSend (map (build e) ms)]
          @ map (\<lambda>m. Exec_pd_updategetemailwisesend (TxnNo m)) (take k ms)
    \<and> snd (Send e w) =
        after_commits e (take k ms) (w1\<lparr>calls := calls w1 @ [DialAndSend (map (build e) ms)]\<rparr>)
    \<and> (\<forall>j<k. fst (ExecContext_pd_updategetemailwisesend e (TxnNo (ms ! j))
                 (after_commits e (take j ms)
                    (w1\<lparr>calls := calls w1 @ [DialAndSend (map (build e) ms)]\<rparr>)))
              = (if Suc j = k then fst (Send e w) else None))
    \<and> (fst (Send e w) = None \<longrightarrow> k = length ms)
    \<and> (fst (Send e w) \<noteq> None \<longrightarrow> 0 < k)"
proof -
  let ?w2 = "w1\<lparr>calls := calls w1 @ [DialAndSend (map (build e) ms)]\<rparr>"
  have S: "Send e w = commit_loop e ms ?w2"
    using assms(3) by (simp add: Send_after_fetch [OF assms(1,2)])
  obtain k where k: "k \<le> length ms"
    and s: "snd (commit_loop e ms ?w2) = after_commits e (take k ms) ?w2"
    and o: "\<forall>j<k. fst (ExecContext_pd_updategetemailwisesend e (TxnNo (ms ! j))
                    (after_commits e (take j ms) ?w2))
              = (if Suc j = k then fst (commit_loop e ms ?w2) else None)"
    and n: "fst (commit_loop e ms ?w2) = None \<longrightarrow> k = length ms"
    and p: "fst (commit_loop e ms ?w2) \<noteq> None \<longrightarrow> 0 < k"
    using commit_loop_stops [of ms e ?w2] by (elim exE conjE) (rule that)
  have c: "calls (snd (Send e w)) =
        calls w1 @ [DialAndSend (map (build e) ms)]
          @ map (\<lambda>m. Exec_pd_updategetemailwisesend (TxnNo m)) (take k ms)"
    by (simp add: S s calls_after_commits)
  show ?thesis
  proof (intro exI [of _ k] conjI)
    show "k \<le> length ms" by (rule k)
    show "calls (snd (Send e w)) =
        calls w1 @ [DialAndSend (map (build e) ms)]
          @ map (\<lambda>m. Exec_pd_updategetemailwisesend (TxnNo m)) (take k ms)" by (rule c)
    show "snd (Send e w) = after_commits e (take k ms) ?w2" by (simp only: S s)
    show "\<forall>j<k. fst (ExecContext_pd_updategetemailwisesend e (TxnNo (ms ! j))
                 (after_commits e (take j ms) ?w2))
              = (if Suc j = k then fst (Send e w) else None)" using o by (simp only: S)
    show "fst (Send e w) = None \<longrightarrow> k = length ms" using n by (simp only: S)
    show "fst (Send e w) \<noteq> None \<longrightarrow> 0 < k" using p by (simp only: S)
  qed
qed

lemma smtp_commit_fails:
  "smtp_relay env_commit_fails (calls w_fetched) (map (build env_commit_fails) [msg_a, msg_b]) = None"
  by (simp add: env_commit_fails_def env_ok_def)

lemma Send_commit_fails:
  "Send env_commit_fails w_pending =
     (Some (External 2),
      \<lparr>tbl = [row_b, row_sent, row_a\<lparr>rectype := Some ''SEND''\<rparr>],
       calls = [Exec_pd_wiseSendEmail, Query_tb_getEmailWiseSend,
                DialAndSend (map (build env_commit_fails) [msg_a, msg_b]),
                Exec_pd_updategetemailwisesend ''T1'', Exec_pd_updategetemailwisesend ''T2'']\<rparr>)"
proof -
  have ne: "[msg_a, msg_b] \<noteq> []" by simp
  have "Send env_commit_fails w_pending =
      commit_loop env_commit_fails [msg_a, msg_b]
        (w_fetched\<lparr>calls := calls w_fetched
           @ [DialAndSend (map (build env_commit_fails) [msg_a, msg_b])]\<rparr>)"
    using smtp_commit_fails
    by (simp only: Send_after_fetch [OF fetch_pending_commit_fails ne] option.case)
  also have "\<dots> = (Some (External 2),
      \<lparr>tbl = [row_b, row_sent, row_a\<lparr>rectype := Some ''SEND''\<rparr>],
       calls = [Exec_pd_wiseSendEmail, Query_tb_getEmailWiseSend,
                DialAndSend (map (build env_commit_fails) [msg_a, msg_b]),
                Exec_pd_updategetemailwisesend ''T1'', Exec_pd_updategetemailwisesend ''T2'']\<rparr>)"
    by (simp add: ExecContext_pd_updategetemailwisesend_def env_commit_fails_def env_ok_def
      w_fetched_def msg_a_def msg_b_def mark_sent_def row_a_def row_b_def row_sent_def)
  finally show ?thesis .
qed

lemma smtp_ok:
  "smtp_relay env_ok (calls w_fetched) (map (build env_ok) [msg_a, msg_b]) = None"
  by (simp add: env_ok_def)

theorem Send_commits_in_order_witness:
  "listMailMessages env_commit_fails w_pending = (Inr [msg_a, msg_b], w_fetched)
   \<and> [msg_a, msg_b] \<noteq> []
   \<and> smtp_relay env_commit_fails (calls w_fetched) (map (build env_commit_fails) [msg_a, msg_b])
       = None
   \<and> fst (Send env_commit_fails w_pending) = Some (External 2)
   \<and> tbl (snd (Send env_commit_fails w_pending))
       = [row_b, row_sent, row_a\<lparr>rectype := Some ''SEND''\<rparr>]
   \<and> (\<exists>k\<le>length [msg_a, msg_b]. 0 < k
       \<and> calls (snd (Send env_commit_fails w_pending)) =
           calls w_fetched @ [DialAndSend (map (build env_commit_fails) [msg_a, msg_b])]
             @ map (\<lambda>m. Exec_pd_updategetemailwisesend (TxnNo m)) (take k [msg_a, msg_b]))
   \<and> listMailMessages env_ok w_pending = (Inr [msg_a, msg_b], w_fetched)
   \<and> smtp_relay env_ok (calls w_fetched) (map (build env_ok) [msg_a, msg_b]) = None
   \<and> fst (Send env_ok w_pending) = None
   \<and> calls (snd (Send env_ok w_pending)) =
        calls w_fetched @ [DialAndSend (map (build env_ok) [msg_a, msg_b])]
          @ [Exec_pd_updategetemailwisesend ''T1'', Exec_pd_updategetemailwisesend ''T2'']"
proof -
  have ne: "[msg_a, msg_b] \<noteq> []" by simp
  have err: "fst (Send env_commit_fails w_pending) = Some (External 2)"
    by (simp add: Send_commit_fails)
  from Send_commits_in_order [OF fetch_pending_commit_fails ne smtp_commit_fails]
  obtain k where "k \<le> length [msg_a, msg_b]"
    and "calls (snd (Send env_commit_fails w_pending)) =
           calls w_fetched @ [DialAndSend (map (build env_commit_fails) [msg_a, msg_b])]
             @ map (\<lambda>m. Exec_pd_updategetemailwisesend (TxnNo m)) (take k [msg_a, msg_b])"
    and "fst (Send env_commit_fails w_pending) \<noteq> None \<longrightarrow> 0 < k"
    by (elim exE conjE) (rule that)
  with err have x: "\<exists>k\<le>length [msg_a, msg_b]. 0 < k
       \<and> calls (snd (Send env_commit_fails w_pending)) =
           calls w_fetched @ [DialAndSend (map (build env_commit_fails) [msg_a, msg_b])]
             @ map (\<lambda>m. Exec_pd_updategetemailwisesend (TxnNo m)) (take k [msg_a, msg_b])"
    by (intro exI [of _ k]) simp
  have t: "tbl (snd (Send env_commit_fails w_pending))
       = [row_b, row_sent, row_a\<lparr>rectype := Some ''SEND''\<rparr>]"
    by (simp add: Send_commit_fails)
  have ok: "fst (Send env_ok w_pending) = None"
    using smtp_ok
    by (simp add: Send_after_fetch [OF fetch_pending ne])
       (simp add: ExecContext_pd_updategetemailwisesend_def env_ok_def)
  from Send_commits_in_order [OF fetch_pending ne smtp_ok]
  obtain k' where "calls (snd (Send env_ok w_pending)) =
           calls w_fetched @ [DialAndSend (map (build env_ok) [msg_a, msg_b])]
             @ map (\<lambda>m. Exec_pd_updategetemailwisesend (TxnNo m)) (take k' [msg_a, msg_b])"
    and "fst (Send env_ok w_pending) = None \<longrightarrow> k' = length [msg_a, msg_b]"
    by (elim exE conjE) (rule that)
  with ok have c: "calls (snd (Send env_ok w_pending)) =
        calls w_fetched @ [DialAndSend (map (build env_ok) [msg_a, msg_b])]
          @ [Exec_pd_updategetemailwisesend ''T1'', Exec_pd_updategetemailwisesend ''T2'']"
    by (simp add: msg_a_def msg_b_def)
  from fetch_pending_commit_fails ne smtp_commit_fails err t x fetch_pending smtp_ok ok c
  show ?thesis by blast
qed

subsection \<open>The recipients of a fetched message\<close>

lemma parseAddresses_empty_iff:
  "parseAddresses (Some s) = [] \<longleftrightarrow> set s \<subseteq> {CHR '';''}"
proof
  assume "parseAddresses (Some s) = []"
  then have "concat (spec_parseAddresses (Some s)) = []"
    by (simp add: parseAddresses_refines)
  then have "filter (\<lambda>c. c \<noteq> CHR '';'') s = []"
    by (simp add: spec_parseAddresses_def concat_filter_nonempty concat_split_at_delimiter)
  then show "set s \<subseteq> {CHR '';''}"
    by (auto simp: filter_empty_conv)
next
  assume "set s \<subseteq> {CHR '';''}"
  then have "filter (\<lambda>c. c \<noteq> CHR '';'') s = []"
    by (auto simp: filter_empty_conv)
  then have "concat (spec_parseAddresses (Some s)) = []"
    by (simp add: spec_parseAddresses_def concat_filter_nonempty concat_split_at_delimiter)
  moreover have "[] \<notin> set (spec_parseAddresses (Some s))"
    by (simp add: spec_parseAddresses_def)
  ultimately have "spec_parseAddresses (Some s) = []"
    by (cases "spec_parseAddresses (Some s)") auto
  then show "parseAddresses (Some s) = []"
    by (simp add: parseAddresses_refines)
qed

text \<open>
  C8, as claimed, fails: the second pending row of the example has a recipient column
  that is present (the empty string), and the message fetched from it has an empty
  to-list, which the built e-mail carries in its \<^verbatim>\<open>To\<close> header.
\<close>

theorem empty_to_list_counterexample:
  "listMailMessages env_ok w_pending = (Inr [msg_a, msg_b], w_fetched)
   \<and> toaddress (select_top100 (today env_ok) (tbl w_fetched) ! 1) = Some []
   \<and> ToAddresses ([msg_a, msg_b] ! 1) = []
   \<and> map_of (header (build env_ok ([msg_a, msg_b] ! 1))) ''To'' = Some []"
  by (simp add: fetch_pending select_pending header_build) (simp add: row_b_def msg_b_def)

text \<open>
  C8, amended. The to-list of a fetched message is the parser's output on the row's
  recipient column, and the \<^verbatim>\<open>To\<close> header of its e-mail has one value per element of
  that list. The list, and with it the header, is empty exactly when the column is
  absent or holds nothing but \<^verbatim>\<open>';'\<close> delimiters (the empty string included); it is
  non-empty as soon as the column holds one other character.
\<close>

theorem fetched_to_list_empty_iff:
  assumes "listMailMessages e w = (Inr ms, w1)" and "i < length ms"
  shows "ToAddresses (ms ! i) = parseAddresses (toaddress (select_top100 (today e) (tbl w1) ! i))
    \<and> map_of (header (build e (ms ! i))) ''To''
        = Some (map (encodeString e) (ToAddresses (ms ! i)))
    \<and> (ToAddresses (ms ! i) = [] \<longleftrightarrow>
         (case toaddress (select_top100 (today e) (tbl w1) ! i) of
            None \<Rightarrow> True
          | Some raw \<Rightarrow> set raw \<subseteq> {CHR '';''}))
    \<and> (map_of (header (build e (ms ! i))) ''To'' = Some [] \<longleftrightarrow> ToAddresses (ms ! i) = [])"
proof -
  let ?rs = "select_top100 (today e) (tbl w1)"
  have all2: "list_all2 (\<lambda>r m. scan_row r = Inr m) ?rs ms"
    by (rule listMailMessages_Inr(2) [OF assms(1)])
  then have i: "i < length ?rs" using assms(2) by (simp add: list_all2_lengthD)
  have s: "scan_row (?rs ! i) = Inr (ms ! i)" by (rule list_all2_nthD [OF all2 i])
  have t: "ToAddresses (ms ! i) = parseAddresses (toaddress (?rs ! i))"
    using scan_row_fields [OF s] by simp
  have h: "map_of (header (build e (ms ! i))) ''To''
        = Some (map (encodeString e) (ToAddresses (ms ! i)))"
    by (simp add: header_build)
  have n: "parseAddresses None = []" by (simp add: parseAddresses_def)
  have x: "ToAddresses (ms ! i) = [] \<longleftrightarrow>
         (case toaddress (?rs ! i) of None \<Rightarrow> True | Some raw \<Rightarrow> set raw \<subseteq> {CHR '';''})"
    by (cases "toaddress (?rs ! i)") (simp_all add: t n parseAddresses_empty_iff)
  have y: "map_of (header (build e (ms ! i))) ''To'' = Some [] \<longleftrightarrow> ToAddresses (ms ! i) = []"
    by (simp add: h)
  from t h x y show ?thesis by blast
qed

theorem fetched_to_list_empty_iff_witness:
  "listMailMessages env_ok w_pending = (Inr [msg_a, msg_b], w_fetched)
   \<and> (0::nat) < length [msg_a, msg_b]
   \<and> toaddress (select_top100 (today env_ok) (tbl w_fetched) ! 0) = Some ''a@x;b@x;;c@x''
   \<and> ToAddresses ([msg_a, msg_b] ! 0) = parseAddresses (Some ''a@x;b@x;;c@x'')
   \<and> ToAddresses ([msg_a, msg_b] ! 0) \<noteq> []
   \<and> listMailMessages env_ok w_null = (Inr [msg_null], w_null_fetched)
   \<and> (0::nat) < length [msg_null]
   \<and> toaddress (select_top100 (today env_ok) (tbl w_null_fetched) ! 0) = None
   \<and> ToAddresses ([msg_null] ! 0) = []"
proof -
  have i: "(0::nat) < length [msg_a, msg_b]" by simp
  have r: "toaddress (select_top100 (today env_ok) (tbl w_fetched) ! 0) = Some ''a@x;b@x;;c@x''"
    by (simp add: select_pending row_a_def)
  note T = fetched_to_list_empty_iff [OF fetch_pending i]
  from T have a1: "ToAddresses ([msg_a, msg_b] ! 0) = parseAddresses (Some ''a@x;b@x;;c@x'')"
    by (simp only: r)
  from T have "ToAddresses ([msg_a, msg_b] ! 0) = [] \<longleftrightarrow>
      (case toaddress (select_top100 (today env_ok) (tbl w_fetched) ! 0) of
         None \<Rightarrow> True | Some raw \<Rightarrow> set raw \<subseteq> {CHR '';''})"
    by blast
  then have a2: "ToAddresses ([msg_a, msg_b] ! 0) \<noteq> []"
    by (simp add: r)
  note a = a1 a2
  have j: "(0::nat) < length [msg_null]" by simp
  have r': "toaddress (select_top100 (today env_ok) (tbl w_null_fetched) ! 0) = None"
    by (simp add: select_null row_null_def)
  from fetched_to_list_empty_iff [OF fetch_null j]
  have "ToAddresses ([msg_null] ! 0) = [] \<longleftrightarrow>
      (case toaddress (select_top100 (today env_ok) (tbl w_null_fetched) ! 0) of
         None \<Rightarrow> True | Some raw \<Rightarrow> set raw \<subseteq> {CHR '';''})"
    by blast
  then have b: "ToAddresses ([msg_null] ! 0) = []" by (simp add: r')
  from fetch_pending i r a fetch_null j r' b show ?thesis by blast
qed

subsection \<open>Listing the pending messages\<close>

lemma ListMessages_eq: "ListMessages e w = listMailMessages e w"
  by (simp add: ListMessages_def split: prod.splits sum.splits)

text \<open>
  C9, as claimed, fails: \<^verbatim>\<open>ListMessages\<close> runs the generation procedure, and where
  that procedure materialises a row the table is not what it was.
\<close>

theorem ListMessages_modifies_counterexample:
  "tbl (snd (ListMessages env_generates w_idle)) = [row_sent, row_a]
   \<and> tbl w_idle = [row_sent]
   \<and> tbl (snd (ListMessages env_generates w_idle)) \<noteq> tbl w_idle
   \<and> calls (snd (ListMessages env_generates w_idle))
       = [Exec_pd_wiseSendEmail, Query_tb_getEmailWiseSend]"
  by (simp add: ListMessages_eq) (simp add: example_defs fetch_defs)

text \<open>
  C9, amended. \<^verbatim>\<open>ListMessages\<close> calls the generation procedure once and then the
  select at most once; it calls neither the dialer nor the acknowledgment procedure.
  The table it leaves is the one the generation procedure left, so the stored records
  are changed exactly as that procedure changes them and not otherwise.
\<close>

theorem ListMessages_effects:
  "tbl (snd (ListMessages e w)) = snd (pd_wiseSendEmail e (calls w) (tbl w))
   \<and> (calls (snd (ListMessages e w)) = calls w @ [Exec_pd_wiseSendEmail]
      \<or> calls (snd (ListMessages e w))
          = calls w @ [Exec_pd_wiseSendEmail, Query_tb_getEmailWiseSend])"
  by (auto simp: ListMessages_eq listMailMessages_def ExecContext_pd_wiseSendEmail_def
      QueryContext_def Let_def split: option.splits sum.splits prod.splits)

lemma Send_calls_after_fetch:
  assumes "listMailMessages e w = (Inr ms, w1)" and "ms \<noteq> []"
  shows "\<exists>k\<le>length ms. calls (snd (Send e w)) =
      calls w1 @ [DialAndSend (map (build e) ms)]
        @ map (\<lambda>m. Exec_pd_updategetemailwisesend (TxnNo m)) (take k ms)"
proof (cases "smtp_relay e (calls w1) (map (build e) ms)")
  case (Some err)
  then have "calls (snd (Send e w)) =
      calls w1 @ [DialAndSend (map (build e) ms)]
        @ map (\<lambda>m. Exec_pd_updategetemailwisesend (TxnNo m)) (take 0 ms)"
    by (simp add: Send_after_fetch [OF assms])
  then show ?thesis by (intro exI [of _ 0]) simp
next
  case None
  let ?w2 = "w1\<lparr>calls := calls w1 @ [DialAndSend (map (build e) ms)]\<rparr>"
  obtain k where k: "k \<le> length ms"
    and s: "snd (commit_loop e ms ?w2) = after_commits e (take k ms) ?w2"
    using commit_loop_stops [of ms e ?w2] by (elim exE conjE) (rule that)
  from None s have "calls (snd (Send e w)) =
      calls w1 @ [DialAndSend (map (build e) ms)]
        @ map (\<lambda>m. Exec_pd_updategetemailwisesend (TxnNo m)) (take k ms)"
    by (simp add: Send_after_fetch [OF assms] calls_after_commits)
  with k show ?thesis by (intro exI [of _ k]) simp
qed

text \<open>
  C10. \<^verbatim>\<open>ListMessages\<close> returns what \<^verbatim>\<open>listMailMessages\<close> returns, and \<^verbatim>\<open>Send\<close>
  started in the same world works on that very result: an error of the listing is the
  error \<^verbatim>\<open>Send\<close> returns, an empty listing ends \<^verbatim>\<open>Send\<close> at once, and a non-empty
  listing \<open>ms\<close> is the batch \<^verbatim>\<open>Send\<close> processes. The e-mails built from the listed
  messages, one per message in the listed order, are what \<^verbatim>\<open>Send\<close> hands to the dialer
  in the world the listing left, and the acknowledgments that follow are keyed by the
  transaction numbers of a prefix of \<open>ms\<close>.
\<close>

theorem Send_processes_ListMessages_batch:
  "ListMessages e w = listMailMessages e w
   \<and> (ListMessages e w = (Inl err, w1) \<longrightarrow> Send e w = (Some err, w1))
   \<and> (ListMessages e w = (Inr [], w1) \<longrightarrow> Send e w = (None, w1))
   \<and> (ListMessages e w = (Inr ms, w1) \<and> ms \<noteq> [] \<longrightarrow>
        (\<exists>batch k. k \<le> length ms
          \<and> calls (snd (Send e w)) =
              calls w1 @ [DialAndSend batch]
                @ map (\<lambda>m. Exec_pd_updategetemailwisesend (TxnNo m)) (take k ms)
          \<and> batch = map (build e) ms
          \<and> length batch = length ms))"
proof -
  have a: "ListMessages e w = listMailMessages e w" by (rule ListMessages_eq)
  have b: "Send e w = (Some err, w1)" if "ListMessages e w = (Inl err, w1)"
    using that by (simp add: ListMessages_eq Send_def)
  have c: "Send e w = (None, w1)" if "ListMessages e w = (Inr [], w1)"
    using that by (simp add: ListMessages_eq Send_def)
  have d: "\<exists>batch k. k \<le> length ms
          \<and> calls (snd (Send e w)) =
              calls w1 @ [DialAndSend batch]
                @ map (\<lambda>m. Exec_pd_updategetemailwisesend (TxnNo m)) (take k ms)
          \<and> batch = map (build e) ms
          \<and> length batch = length ms"
    if l: "ListMessages e w = (Inr ms, w1)" and ne: "ms \<noteq> []"
  proof -
    from l have f: "listMailMessages e w = (Inr ms, w1)" by (simp add: ListMessages_eq)
    from Send_calls_after_fetch [OF f ne] obtain k where "k \<le> length ms"
      and "calls (snd (Send e w)) =
        calls w1 @ [DialAndSend (map (build e) ms)]
          @ map (\<lambda>m. Exec_pd_updategetemailwisesend (TxnNo m)) (take k ms)"
      by (elim exE conjE) (rule that)
    then show ?thesis
      by (intro exI [of _ "map (build e) ms"] exI [of _ k]) simp
  qed
  from a b c d show ?thesis by blast
qed

theorem Send_processes_ListMessages_batch_witness:
  "ListMessages env_ok w_pending = (Inr [msg_a, msg_b], w_fetched) \<and> [msg_a, msg_b] \<noteq> []
   \<and> (\<exists>batch k. k \<le> length [msg_a, msg_b]
          \<and> calls (snd (Send env_ok w_pending)) =
              calls w_fetched @ [DialAndSend batch]
                @ map (\<lambda>m. Exec_pd_updategetemailwisesend (TxnNo m)) (take k [msg_a, msg_b])
          \<and> batch = map (build env_ok) [msg_a, msg_b]
          \<and> length batch = length [msg_a, msg_b])
   \<and> ListMessages env_ok w_idle = (Inr [], w_idle_fetched)
   \<and> Send env_ok w_idle = (None, w_idle_fetched)
   \<and> ListMessages env_storage_down w_pending =
        (Inl (Wrap ''failed to execute stored procedure pd_wiseSendEmail'' (External 3)),
         \<lparr>tbl = [row_b, row_sent, row_a], calls = [Exec_pd_wiseSendEmail]\<rparr>)
   \<and> Send env_storage_down w_pending =
        (Some (Wrap ''failed to execute stored procedure pd_wiseSendEmail'' (External 3)),
         \<lparr>tbl = [row_b, row_sent, row_a], calls = [Exec_pd_wiseSendEmail]\<rparr>)"
proof -
  have l: "ListMessages env_ok w_pending = (Inr [msg_a, msg_b], w_fetched)"
    using Send_processes_ListMessages_batch [of env_ok w_pending] fetch_pending by simp
  have l': "ListMessages env_ok w_idle = (Inr [], w_idle_fetched)"
    using Send_processes_ListMessages_batch [of env_ok w_idle] fetch_idle by simp
  have l'': "ListMessages env_storage_down w_pending =
        (Inl (Wrap ''failed to execute stored procedure pd_wiseSendEmail'' (External 3)),
         \<lparr>tbl = [row_b, row_sent, row_a], calls = [Exec_pd_wiseSendEmail]\<rparr>)"
    using Send_processes_ListMessages_batch [of env_storage_down w_pending] fetch_storage_down
    by simp
  have ne: "[msg_a, msg_b] \<noteq> []" by simp
  from Send_processes_ListMessages_batch
      [where e = env_ok and w = w_pending and ms = "[msg_a, msg_b]" and ?w1.0 = w_fetched]
    Send_processes_ListMessages_batch
      [where e = env_ok and w = w_idle and ?w1.0 = w_idle_fetched]
    Send_processes_ListMessages_batch
      [where e = env_storage_down and w = w_pending
         and err = "Wrap ''failed to execute stored procedure pd_wiseSendEmail'' (External 3)"
         and ?w1.0 = "\<lparr>tbl = [row_b, row_sent, row_a], calls = [Exec_pd_wiseSendEmail]\<rparr>"]
    l l' l'' ne
  show ?thesis by blast
qed

end
